theory Spec2Isabelle
  imports Main
begin

section \<open>JavaScript values used by \<open>server.js\<close>\<close>

text \<open>
  The only exception the resolver can raise is the \<open>TypeError\<close> of a method call on
  \<open>undefined\<close> (\<open>line.indexOf(...)\<close> when \<open>metroData.lines[...]\<close> is \<open>undefined\<close>).
\<close>

datatype js_error = TypeError

text \<open>
  A property read \<open>obj[key]\<close> on an object literal finds an own property, or else a
  member inherited from \<open>Object.prototype\<close>, or else yields \<open>undefined\<close>.
\<close>

datatype 'a js_prop = Undefined | Inherited | Own 'a

text \<open>The property names every object literal inherits from \<open>Object.prototype\<close>.\<close>

definition object_prototype_keys :: "string list" where
  "object_prototype_keys =
     [''constructor'', ''hasOwnProperty'', ''isPrototypeOf'', ''propertyIsEnumerable'',
      ''toLocaleString'', ''toString'', ''valueOf'', ''__proto__'',
      ''__defineGetter__'', ''__defineSetter__'', ''__lookupGetter__'', ''__lookupSetter__'']"

text \<open>
  An object literal is kept as the list of its entries in the order written (the order
  \<open>for ... in\<close> visits keys that are not integer-like; none of the literals of the
  source repeats a key).
\<close>

definition js_get :: "(string \<times> 'a) list \<Rightarrow> string \<Rightarrow> 'a js_prop" where
  "js_get obj key =
     (case map_of obj key of
        Some v \<Rightarrow> Own v
      | None \<Rightarrow> if key \<in> set object_prototype_keys then Inherited else Undefined)"

text \<open>
  \<open>!v\<close> is true only for \<open>undefined\<close> here: an own station entry is an object, and
  every inherited member is a function or an object.
\<close>

fun falsy :: "'a js_prop \<Rightarrow> bool" where
  "falsy Undefined = True"
| "falsy Inherited = False"
| "falsy (Own v) = False"

text \<open>\<open>Array.prototype.indexOf\<close>: the first position holding the element, or \<open>-1\<close>.\<close>

fun indexOf_from :: "'a list \<Rightarrow> 'a \<Rightarrow> int \<Rightarrow> int" where
  "indexOf_from [] x k = - 1"
| "indexOf_from (y # ys) x k = (if y = x then k else indexOf_from ys x (k + 1))"

definition indexOf :: "'a list \<Rightarrow> 'a \<Rightarrow> int" where
  "indexOf xs x = indexOf_from xs x 0"

text \<open>
  \<open>Array.prototype.slice(start, end)\<close>: a negative bound counts from the end of the
  array, both bounds are clamped to the array, and an empty range gives \<open>[]\<close>.
\<close>

definition slice :: "'a list \<Rightarrow> int \<Rightarrow> int \<Rightarrow> 'a list" where
  "slice xs start fin =
     (let len = int (length xs);
          k = (if start < 0 then max (len + start) 0 else min start len);
          final = (if fin < 0 then max (len + fin) 0 else min fin len)
      in take (nat (final - k)) (drop (nat k) xs))"

text \<open>\<open>slice(start)\<close> with the end left out runs to the end of the array.\<close>

definition slice_from :: "'a list \<Rightarrow> int \<Rightarrow> 'a list" where
  "slice_from xs start = slice xs start (int (length xs))"

section \<open>The network data\<close>

record station =
  line :: nat
  interchange :: bool

text \<open>
  \<open>metroData\<close>. The field names carry the prefix \<open>md_\<close> because \<open>interchanges\<close> is
  also a field of the route object.
\<close>

record metro_data =
  md_stations :: "(string \<times> station) list"
  md_lines :: "(nat \<times> string list) list"
  md_interchanges :: "(string \<times> nat list) list"

definition metroData :: metro_data where
  "metroData = \<lparr>
     md_stations =
       [(''Danapur Cantonment'', \<lparr>line = 1, interchange = False\<rparr>),
        (''Saguna More'', \<lparr>line = 1, interchange = False\<rparr>),
        (''RPS More'', \<lparr>line = 1, interchange = False\<rparr>),
        (''Patliputra'', \<lparr>line = 1, interchange = False\<rparr>),
        (''Rukanpura'', \<lparr>line = 1, interchange = False\<rparr>),
        (''Raja Bazar'', \<lparr>line = 1, interchange = False\<rparr>),
        (''Patna Zoo'', \<lparr>line = 1, interchange = False\<rparr>),
        (''Vikas Bhawan'', \<lparr>line = 1, interchange = False\<rparr>),
        (''Vidyut Bhawan'', \<lparr>line = 1, interchange = False\<rparr>),
        (''Patna Junction'', \<lparr>line = 1, interchange = True\<rparr>),
        (''Mithapur'', \<lparr>line = 1, interchange = False\<rparr>),
        (''Ramkrishna Nagar'', \<lparr>line = 1, interchange = False\<rparr>),
        (''Jaganpur'', \<lparr>line = 1, interchange = False\<rparr>),
        (''Khemni Chak'', \<lparr>line = 1, interchange = True\<rparr>),
        (''New ISBT'', \<lparr>line = 2, interchange = False\<rparr>),
        (''Zero Mile'', \<lparr>line = 2, interchange = False\<rparr>),
        (''Bhoothnath'', \<lparr>line = 2, interchange = False\<rparr>),
        (''Malahi Pakri'', \<lparr>line = 2, interchange = False\<rparr>),
        (''Rajendra Nagar'', \<lparr>line = 2, interchange = False\<rparr>),
        (''Moin Ul Haq Stadium'', \<lparr>line = 2, interchange = False\<rparr>),
        (''Patna University'', \<lparr>line = 2, interchange = False\<rparr>),
        (''PMCH'', \<lparr>line = 2, interchange = False\<rparr>),
        (''Gandhi Maidan'', \<lparr>line = 2, interchange = False\<rparr>),
        (''Akashvani'', \<lparr>line = 2, interchange = False\<rparr>)],
     md_lines =
       [(1, [''Danapur Cantonment'', ''Saguna More'', ''RPS More'', ''Patliputra'',
             ''Rukanpura'', ''Raja Bazar'', ''Patna Zoo'', ''Vikas Bhawan'',
             ''Vidyut Bhawan'', ''Patna Junction'', ''Mithapur'', ''Ramkrishna Nagar'',
             ''Jaganpur'', ''Khemni Chak'']),
        (2, [''Patna Junction'', ''Akashvani'', ''Gandhi Maidan'', ''PMCH'',
             ''Patna University'', ''Moin Ul Haq Stadium'', ''Rajendra Nagar'',
             ''Malahi Pakri'', ''Khemni Chak'', ''Bhoothnath'', ''Zero Mile'', ''New ISBT''])],
     md_interchanges =
       [(''Patna Junction'', [1, 2]),
        (''Khemni Chak'', [1, 2])] \<rparr>"

definition TIME_PER_STATION_MINS :: int where
  "TIME_PER_STATION_MINS = 2"

definition COST_PER_STATION_INR :: int where
  "COST_PER_STATION_INR = 5"

definition INTERCHANGE_TIME_MINS :: int where
  "INTERCHANGE_TIME_MINS = 5"

section \<open>\<open>findRoute\<close>\<close>

record route =
  path :: "string list"
  interchanges :: int
  changeAt :: "string option"

text \<open>
  \<open>node.line\<close> for a truthy \<open>node\<close>: the field of an own station entry, \<open>undefined\<close>
  (\<open>None\<close>) on an inherited member. The guard of \<open>findRoute\<close> returns before
  \<open>.line\<close> is read on \<open>undefined\<close>.
\<close>

fun node_line :: "station js_prop \<Rightarrow> nat option" where
  "node_line (Own n) = Some (line n)"
| "node_line Inherited = None"
| "node_line Undefined = None"

text \<open>
  \<open>metroData.lines[l]\<close>: the keys of \<open>lines\<close> are numbers, and neither a number nor
  \<open>undefined\<close> names a member of \<open>Object.prototype\<close>, so a missing key reads as
  \<open>undefined\<close> (\<open>None\<close>).
\<close>

definition lines_get :: "metro_data \<Rightarrow> nat option \<Rightarrow> string list option" where
  "lines_get md l = (case l of None \<Rightarrow> None | Some n \<Rightarrow> map_of (md_lines md) n)"

text \<open>
  The slicing idiom the source writes three times (lines 85-86, 106-107, 116-117):
  \<open>p = ln.slice(Math.min(i, j), Math.max(i, j) + 1); if (i > j) p.reverse();\<close>
\<close>

definition slice_between :: "'a list \<Rightarrow> int \<Rightarrow> int \<Rightarrow> 'a list" where
  "slice_between ln i j =
     (let p = slice ln (min i j) (max i j + 1) in if i > j then rev p else p)"

text \<open>
  Lines 100-119, one pass of the loop body up to \<open>fullPath\<close>: \<open>Inl TypeError\<close> when
  \<open>indexOf\<close> is called on an \<open>undefined\<close> line, \<open>Inr None\<close> for either \<open>continue\<close>,
  \<open>Inr (Some fullPath)\<close> otherwise.
\<close>

definition fullPath ::
  "metro_data \<Rightarrow> string \<Rightarrow> string \<Rightarrow> nat option \<Rightarrow> nat option \<Rightarrow> string
     \<Rightarrow> js_error + string list option" where
  "fullPath md startStation endStation startLine endLine interchangeStation =
     (case lines_get md startLine of
        None \<Rightarrow> Inl TypeError
      | Some line1 \<Rightarrow>
          let startIndex1 = indexOf line1 startStation;
              interchangeIndex1 = indexOf line1 interchangeStation
          in if interchangeIndex1 = - 1 then Inr None
             else
               let path1 = slice_between line1 startIndex1 interchangeIndex1
               in (case lines_get md endLine of
                     None \<Rightarrow> Inl TypeError
                   | Some line2 \<Rightarrow>
                       let interchangeIndex2 = indexOf line2 interchangeStation;
                           endIndex2 = indexOf line2 endStation
                       in if interchangeIndex2 = - 1 then Inr None
                          else
                            let path2 = slice_between line2 interchangeIndex2 endIndex2
                            in Inr (Some (path1 @ slice_from path2 1))))"

text \<open>
  Lines 98-128: the \<open>for ... in\<close> loop over the keys of \<open>metroData.interchanges\<close>,
  threading \<open>bestRoute\<close> (\<open>None\<close> is \<open>null\<close>).
\<close>

fun forInterchanges ::
  "metro_data \<Rightarrow> string \<Rightarrow> string \<Rightarrow> nat option \<Rightarrow> nat option \<Rightarrow> string list
     \<Rightarrow> route option \<Rightarrow> js_error + route option" where
  "forInterchanges md startStation endStation startLine endLine [] bestRoute = Inr bestRoute"
| "forInterchanges md startStation endStation startLine endLine
       (interchangeStation # rest) bestRoute =
     (case fullPath md startStation endStation startLine endLine interchangeStation of
        Inl e \<Rightarrow> Inl e
      | Inr None \<Rightarrow>
          forInterchanges md startStation endStation startLine endLine rest bestRoute
      | Inr (Some fp) \<Rightarrow>
          forInterchanges md startStation endStation startLine endLine rest
            (case bestRoute of
               None \<Rightarrow> Some \<lparr>path = fp, interchanges = 1, changeAt = Some interchangeStation\<rparr>
             | Some b \<Rightarrow>
                 if length fp < length (path b)
                 then Some \<lparr>path = fp, interchanges = 1, changeAt = Some interchangeStation\<rparr>
                 else bestRoute))"

text \<open>
  \<open>findRoute\<close> with the network as a parameter; \<open>Inr None\<close> is the \<open>null\<close> result.
\<close>

definition findRouteIn :: "metro_data \<Rightarrow> string \<Rightarrow> string \<Rightarrow> js_error + route option" where
  "findRouteIn md startStation endStation =
     (let startNode = js_get (md_stations md) startStation;
          endNode = js_get (md_stations md) endStation
      in if falsy startNode \<or> falsy endNode then Inr None
         else if node_line startNode = node_line endNode then
           (case lines_get md (node_line startNode) of
              None \<Rightarrow> Inl TypeError
            | Some ln \<Rightarrow>
                let startIndex = indexOf ln startStation;
                    endIndex = indexOf ln endStation
                in Inr (Some \<lparr>path = slice_between ln startIndex endIndex,
                              interchanges = 0, changeAt = None\<rparr>))
         else forInterchanges md startStation endStation
                (node_line startNode) (node_line endNode)
                (map fst (md_interchanges md)) None)"

definition findRoute :: "string \<Rightarrow> string \<Rightarrow> js_error + route option" where
  "findRoute = findRouteIn metroData"

text \<open>
  A name is registered when it is an own key of \<open>metroData.stations\<close>; its home line
  is the \<open>line\<close> field of that entry.
\<close>

definition registered :: "metro_data \<Rightarrow> string \<Rightarrow> bool" where
  "registered md s = (map_of (md_stations md) s \<noteq> None)"

definition homeLine :: "metro_data \<Rightarrow> string \<Rightarrow> nat option" where
  "homeLine md s = map_option line (map_of (md_stations md) s)"

section \<open>The handler of \<open>GET /api/route\<close>\<close>

text \<open>
  The JSON body of the successful reply. \<open>from\<close>, \<open>to\<close>, \<open>route\<close> and \<open>changeAt\<close>
  carry the prefix \<open>r_\<close>: the first is a keyword, the others name the route record
  and its field.
\<close>

record response =
  r_from :: string
  r_to :: string
  r_route :: "string list"
  numberOfStations :: int
  numberOfInterchanges :: int
  r_changeAt :: "string option"
  estimatedTimeMinutes :: int
  estimatedPriceINR :: int

text \<open>
  \<open>res.status(n).json({error: ...})\<close> is \<open>ErrorJson n\<close> (the message text is left
  out), \<open>res.json(response)\<close> is \<open>RouteJson response\<close>.
\<close>

datatype reply = ErrorJson nat | RouteJson response

text \<open>
  A query parameter is absent (\<open>None\<close>) or a string; \<open>!from\<close> holds for an absent and
  for an empty one. An exception of \<open>findRoute\<close> leaves the handler uncaught.
\<close>

fun missing :: "string option \<Rightarrow> bool" where
  "missing None = True"
| "missing (Some s) = (s = [])"

definition api_route :: "string option \<Rightarrow> string option \<Rightarrow> js_error + reply" where
  "api_route from_q to_q =
     (if missing from_q \<or> missing to_q then Inr (ErrorJson 400)
      else
        (case findRoute (the from_q) (the to_q) of
           Inl e \<Rightarrow> Inl e
         | Inr None \<Rightarrow> Inr (ErrorJson 404)
         | Inr (Some rt) \<Rightarrow>
             let nStations = int (length (path rt)) - 1;
                 estimatedTime =
                   nStations * TIME_PER_STATION_MINS + interchanges rt * INTERCHANGE_TIME_MINS;
                 estimatedPrice = nStations * COST_PER_STATION_INR
             in Inr (RouteJson
                  \<lparr>r_from = the from_q, r_to = the to_q, r_route = path rt,
                   numberOfStations = nStations,
                   numberOfInterchanges = interchanges rt,
                   r_changeAt = changeAt rt,
                   estimatedTimeMinutes = estimatedTime,
                   estimatedPriceINR = estimatedPrice\<rparr>)))"

section \<open>Notions of the specification\<close>

text \<open>
  The interchange candidates that bridge two lines: the registry keys, in registry
  order, that occur in both station sequences.
\<close>

definition bridging :: "string list \<Rightarrow> string list \<Rightarrow> string list \<Rightarrow> string list" where
  "bridging line1 line2 ics = filter (\<lambda>ic. ic \<in> set line1 \<and> ic \<in> set line2) ics"

text \<open>
  The full two-leg path through a candidate: leg 1 from the origin to the interchange on
  the origin's line, then leg 2 from the interchange to the destination on the
  destination's line without its first station.
\<close>

definition twoLegPath ::
  "string list \<Rightarrow> string list \<Rightarrow> string \<Rightarrow> string \<Rightarrow> string \<Rightarrow> string list" where
  "twoLegPath line1 line2 s e ic =
     slice_between line1 (indexOf line1 s) (indexOf line1 ic)
       @ slice_from (slice_between line2 (indexOf line2 ic) (indexOf line2 e)) 1"

definition candidateRoute ::
  "string list \<Rightarrow> string list \<Rightarrow> string \<Rightarrow> string \<Rightarrow> string \<Rightarrow> route" where
  "candidateRoute line1 line2 s e ic =
     \<lparr>path = twoLegPath line1 line2 s e ic, interchanges = 1, changeAt = Some ic\<rparr>"

text \<open>
  The update of \<open>bestRoute\<close> on lines 121-127, as a step on an optional route: a
  candidate replaces the route kept so far only when its path is strictly shorter.
\<close>

definition keep_shorter :: "route option \<Rightarrow> route \<Rightarrow> route option" where
  "keep_shorter best c =
     (case best of None \<Rightarrow> Some c
      | Some b \<Rightarrow> if length (path c) < length (path b) then Some c else best)"

section \<open>Array operations\<close>

lemmas eval_defs = findRoute_def findRouteIn_def metroData_def js_get_def lines_get_def
  fullPath_def indexOf_def slice_between_def slice_def slice_from_def Let_def
  object_prototype_keys_def

lemma indexOf_from_notin: "x \<notin> set xs \<Longrightarrow> indexOf_from xs x k = - 1"
  by (induction xs arbitrary: k) auto

lemma indexOf_from_in:
  "x \<in> set xs \<Longrightarrow>
     k \<le> indexOf_from xs x k \<and> indexOf_from xs x k < k + int (length xs)
       \<and> xs ! nat (indexOf_from xs x k - k) = x"
proof (induction xs arbitrary: k)
  case Nil
  then show ?case by simp
next
  case (Cons y ys)
  show ?case
  proof (cases "y = x")
    case True
    then show ?thesis by simp
  next
    case False
    with Cons.prems have mem: "x \<in> set ys" by simp
    from Cons.IH [OF mem, of "k + 1"]
    have r: "k + 1 \<le> indexOf_from ys x (k + 1)"
      "indexOf_from ys x (k + 1) < k + 1 + int (length ys)"
      "ys ! nat (indexOf_from ys x (k + 1) - (k + 1)) = x" by simp_all
    have "nat (indexOf_from ys x (k + 1) - k) = Suc (nat (indexOf_from ys x (k + 1) - (k + 1)))"
      using r(1) by linarith
    with r False show ?thesis by simp
  qed
qed

lemma indexOf_in:
  assumes "x \<in> set xs"
  shows "0 \<le> indexOf xs x" and "indexOf xs x < int (length xs)"
    and "xs ! nat (indexOf xs x) = x"
  using indexOf_from_in [OF assms, of 0] by (simp_all add: indexOf_def)

lemma indexOf_minus_one: "(indexOf xs x = - 1) = (x \<notin> set xs)"
  using indexOf_in(1) [of x xs] indexOf_from_notin [of x xs 0]
  by (auto simp: indexOf_def)

lemma slice_in_range:
  "0 \<le> i \<Longrightarrow> i \<le> j \<Longrightarrow> j \<le> int (length xs) \<Longrightarrow>
     slice xs i j = take (nat (j - i)) (drop (nat i) xs)"
  by (simp add: slice_def Let_def)

lemma length_slice_in_range:
  "0 \<le> i \<Longrightarrow> i \<le> j \<Longrightarrow> j \<le> int (length xs) \<Longrightarrow> length (slice xs i j) = nat (j - i)"
  by (simp add: slice_in_range)

lemma length_slice_le_one: "length (slice xs i (i + 1)) \<le> 1"
  by (auto simp: slice_def Let_def min_def max_def)

lemma rev_short: "length xs \<le> 1 \<Longrightarrow> rev xs = xs"
  by (cases xs) auto

lemma slice_between_rev: "slice_between xs i j = rev (slice_between xs j i)"
proof -
  consider "i < j" | "i = j" | "j < i" by linarith
  then show ?thesis
  proof cases
    case 1
    then show ?thesis by (simp add: slice_between_def Let_def min_def max_def)
  next
    case 2
    then show ?thesis
      using rev_short [OF length_slice_le_one [of xs j]]
      by (simp add: slice_between_def Let_def)
  next
    case 3
    then show ?thesis by (simp add: slice_between_def Let_def min_def max_def)
  qed
qed

lemma length_slice_between:
  assumes "0 \<le> i" "i < int (length xs)" "0 \<le> j" "j < int (length xs)"
  shows "length (slice_between xs i j) = nat \<bar>i - j\<bar> + 1"
proof -
  have "length (slice xs (min i j) (max i j + 1)) = nat (max i j + 1 - min i j)"
    using assms by (intro length_slice_in_range) auto
  then show ?thesis
    by (auto simp: slice_between_def Let_def min_def max_def)
qed

lemma slice_between_same:
  assumes "0 \<le> i" "i < int (length xs)"
  shows "slice_between xs i i = [xs ! nat i]"
proof -
  have "slice xs i (i + 1) = take (nat (i + 1 - i)) (drop (nat i) xs)"
    using assms by (intro slice_in_range) auto
  moreover have "nat i < length xs" using assms by linarith
  ultimately show ?thesis
    by (simp add: slice_between_def Let_def take_Suc_conv_app_nth hd_drop_conv_nth
        take_Suc)
qed

lemma slice_from_one: "slice_from xs 1 = drop 1 xs"
  by (cases xs) (simp_all add: slice_from_def slice_def Let_def)

section \<open>The loop over the interchange registry\<close>

lemma fullPath_lines:
  assumes "lines_get md sl = Some l1" "lines_get md el = Some l2"
  shows "fullPath md s e sl el ic =
           Inr (if ic \<in> set l1 \<and> ic \<in> set l2 then Some (twoLegPath l1 l2 s e ic) else None)"
  using assms by (simp add: fullPath_def Let_def indexOf_minus_one twoLegPath_def)

lemma forInterchanges_foldl:
  assumes "lines_get md sl = Some l1" "lines_get md el = Some l2"
  shows "forInterchanges md s e sl el ics best =
           Inr (foldl keep_shorter best (map (candidateRoute l1 l2 s e) (bridging l1 l2 ics)))"
proof (induction ics arbitrary: best)
  case Nil
  show ?case by (simp add: bridging_def)
next
  case (Cons ic ics)
  show ?case
    by (cases best)
      (simp_all add: fullPath_lines [OF assms] Cons.IH bridging_def keep_shorter_def
        candidateRoute_def)
qed

lemma foldl_keep_shorter_first_min:
  "cs \<noteq> [] \<Longrightarrow>
     \<exists>k<length cs. foldl keep_shorter None cs = Some (cs ! k)
       \<and> (\<forall>j<length cs. length (path (cs ! k)) \<le> length (path (cs ! j)))
       \<and> (\<forall>j<k. length (path (cs ! k)) < length (path (cs ! j)))"
proof (induction cs rule: rev_induct)
  case Nil
  then show ?case by simp
next
  case (snoc c cs)
  show ?case
  proof (cases "cs = []")
    case True
    then show ?thesis by (simp add: keep_shorter_def)
  next
    case False
    from snoc.IH [OF False] obtain k where k: "k < length cs"
      "foldl keep_shorter None cs = Some (cs ! k)"
      "\<forall>j<length cs. length (path (cs ! k)) \<le> length (path (cs ! j))"
      "\<forall>j<k. length (path (cs ! k)) < length (path (cs ! j))" by blast
    show ?thesis
    proof (cases "length (path c) < length (path (cs ! k))")
      case True
      have "foldl keep_shorter None (cs @ [c]) = Some ((cs @ [c]) ! length cs)"
        using k(2) True by (simp add: keep_shorter_def)
      moreover have "\<forall>j<length (cs @ [c]).
          length (path ((cs @ [c]) ! length cs)) \<le> length (path ((cs @ [c]) ! j))"
        using k(3) True by (fastforce simp: nth_append less_Suc_eq)
      moreover have "\<forall>j<length cs.
          length (path ((cs @ [c]) ! length cs)) < length (path ((cs @ [c]) ! j))"
        using k(3) True by (fastforce simp: nth_append)
      ultimately show ?thesis
        by (intro exI [of _ "length cs"]) simp
    next
      case False
      have "foldl keep_shorter None (cs @ [c]) = Some ((cs @ [c]) ! k)"
        using k(1,2) False by (simp add: keep_shorter_def nth_append)
      moreover have "\<forall>j<length (cs @ [c]).
          length (path ((cs @ [c]) ! k)) \<le> length (path ((cs @ [c]) ! j))"
        using k(1,3) False by (auto simp: nth_append less_Suc_eq)
      moreover have "\<forall>j<k.
          length (path ((cs @ [c]) ! k)) < length (path ((cs @ [c]) ! j))"
        using k(1,4) by (auto simp: nth_append)
      ultimately show ?thesis
        using k(1) by (intro exI [of _ k]) simp
    qed
  qed
qed

lemma js_get_registered:
  "map_of (md_stations md) s = Some n \<Longrightarrow> js_get (md_stations md) s = Own n"
  by (simp add: js_get_def)

lemma findRouteIn_cross:
  assumes "map_of (md_stations md) s = Some ns" "map_of (md_stations md) e = Some ne"
    and "line ns \<noteq> line ne"
    and "map_of (md_lines md) (line ns) = Some l1" "map_of (md_lines md) (line ne) = Some l2"
  shows "findRouteIn md s e =
           Inr (foldl keep_shorter None
             (map (candidateRoute l1 l2 s e) (bridging l1 l2 (map fst (md_interchanges md)))))"
proof -
  have "lines_get md (Some (line ns)) = Some l1" "lines_get md (Some (line ne)) = Some l2"
    using assms by (simp_all add: lines_get_def)
  from forInterchanges_foldl [OF this] assms(1-3) show ?thesis
    by (simp add: findRouteIn_def js_get_registered)
qed

lemma findRouteIn_same:
  assumes "map_of (md_stations md) s = Some ns" "map_of (md_stations md) e = Some ne"
    and "line ns = line ne"
    and "map_of (md_lines md) (line ns) = Some ln"
  shows "findRouteIn md s e =
           Inr (Some \<lparr>path = slice_between ln (indexOf ln s) (indexOf ln e),
                     interchanges = 0, changeAt = None\<rparr>)"
  using assms by (simp add: findRouteIn_def js_get_registered lines_get_def)

lemma fullPath_no_start_line: "fullPath md s e None el ic = Inl TypeError"
  by (simp add: fullPath_def lines_get_def)

lemma fullPath_no_end_line: "fullPath md s e sl None ic \<noteq> Inr (Some fp)"
  by (simp add: fullPath_def lines_get_def Let_def split: option.splits)

lemma forInterchanges_no_candidate:
  assumes "\<And>ic fp. fullPath md s e sl el ic \<noteq> Inr (Some fp)"
  shows "forInterchanges md s e sl el ics None \<noteq> Inr (Some r)"
proof (induction ics)
  case Nil
  show ?case by simp
next
  case (Cons ic ics)
  show ?case
  proof (cases "fullPath md s e sl el ic")
    case (Inl err)
    then show ?thesis by simp
  next
    case (Inr c)
    with assms have "c = None" by (cases c) auto
    with Inr Cons.IH show ?thesis by simp
  qed
qed

lemma findRouteIn_route_registered:
  assumes "findRouteIn md A B = Inr (Some r)"
  shows "registered md A \<and> registered md B"
proof (rule ccontr)
  assume "\<not> (registered md A \<and> registered md B)"
  then consider "map_of (md_stations md) A = None" | "map_of (md_stations md) B = None"
    by (auto simp: registered_def)
  then have "findRouteIn md A B \<noteq> Inr (Some r)"
  proof cases
    case 1
    then have a: "node_line (js_get (md_stations md) A) = None"
      by (simp add: js_get_def)
    have "forInterchanges md A B None el ics None \<noteq> Inr (Some r)" for el ics
      by (rule forInterchanges_no_candidate) (simp add: fullPath_no_start_line)
    then show ?thesis
      using a by (simp add: findRouteIn_def Let_def lines_get_def)
  next
    case 2
    then have b: "node_line (js_get (md_stations md) B) = None"
      by (simp add: js_get_def)
    have "forInterchanges md A B sl None ics None \<noteq> Inr (Some r)" for sl ics
      by (rule forInterchanges_no_candidate) (rule fullPath_no_end_line)
    then show ?thesis
      using b by (auto simp: findRouteIn_def Let_def lines_get_def)
  qed
  with assms show False by simp
qed

section \<open>Facts about the configured network\<close>

lemma metroData_home_line:
  assumes "map_of (md_stations metroData) s = Some n"
  shows "\<exists>ln. map_of (md_lines metroData) (line n) = Some ln \<and> s \<in> set ln"
proof -
  have "\<forall>(s, n) \<in> set (md_stations metroData).
          \<exists>ln. map_of (md_lines metroData) (line n) = Some ln \<and> s \<in> set ln"
    by (simp add: metroData_def)
  with map_of_SomeD [OF assms] show ?thesis by blast
qed

lemma metroData_line_interchanges:
  "map_of (md_lines metroData) l = Some ln \<Longrightarrow>
     ''Patna Junction'' \<in> set ln \<and> ''Khemni Chak'' \<in> set ln"
  by (auto simp: metroData_def split: if_splits)

lemma metroData_bridging:
  assumes "map_of (md_lines metroData) a = Some l1" "map_of (md_lines metroData) b = Some l2"
  shows "bridging l1 l2 (map fst (md_interchanges metroData))
           = [''Patna Junction'', ''Khemni Chak'']"
  using metroData_line_interchanges [OF assms(1)] metroData_line_interchanges [OF assms(2)]
  by (simp add: bridging_def metroData_def)

lemma metroData_empty_name: "\<not> registered metroData []"
  by (simp add: registered_def metroData_def)

lemma length_twoLegPath:
  assumes "s \<in> set l1" "ic \<in> set l1" "ic \<in> set l2" "e \<in> set l2"
  shows "length (twoLegPath l1 l2 s e ic) =
           nat \<bar>indexOf l1 s - indexOf l1 ic\<bar> + 1 + nat \<bar>indexOf l2 ic - indexOf l2 e\<bar>"
proof -
  have "length (slice_between l1 (indexOf l1 s) (indexOf l1 ic))
          = nat \<bar>indexOf l1 s - indexOf l1 ic\<bar> + 1"
    using assms(1,2) by (intro length_slice_between indexOf_in)
  moreover have "length (slice_between l2 (indexOf l2 ic) (indexOf l2 e))
          = nat \<bar>indexOf l2 ic - indexOf l2 e\<bar> + 1"
    using assms(3,4) by (intro length_slice_between indexOf_in)
  ultimately show ?thesis
    by (simp add: twoLegPath_def slice_from_one)
qed

lemma length_twoLegPath_sym:
  assumes "s \<in> set l1" "ic \<in> set l1" "ic \<in> set l2" "e \<in> set l2"
  shows "length (twoLegPath l1 l2 s e ic) = length (twoLegPath l2 l1 e s ic)"
  using length_twoLegPath [OF assms] length_twoLegPath [OF assms(4,3,2,1)]
  by (simp add: abs_minus_commute)

lemma foldl_keep_shorter_two:
  "foldl keep_shorter None [c1, c2] =
     Some (if length (path c2) < length (path c1) then c2 else c1)"
  by (simp add: keep_shorter_def)

lemma findRoute_cross_metroData:
  assumes "map_of (md_stations metroData) s = Some ns"
    and "map_of (md_stations metroData) e = Some ne"
    and "line ns \<noteq> line ne"
    and "map_of (md_lines metroData) (line ns) = Some l1"
    and "map_of (md_lines metroData) (line ne) = Some l2"
  shows "findRoute s e =
           Inr (Some (if length (twoLegPath l1 l2 s e ''Khemni Chak'')
                           < length (twoLegPath l1 l2 s e ''Patna Junction'')
                      then candidateRoute l1 l2 s e ''Khemni Chak''
                      else candidateRoute l1 l2 s e ''Patna Junction''))"
proof -
  have "findRoute s e = Inr (foldl keep_shorter None
          [candidateRoute l1 l2 s e ''Patna Junction'', candidateRoute l1 l2 s e ''Khemni Chak''])"
    using findRouteIn_cross [OF assms] metroData_bridging [OF assms(4,5)]
    by (simp add: findRoute_def)
  then show ?thesis
    by (simp only: foldl_keep_shorter_two) (simp add: candidateRoute_def)
qed

lemma findRoute_same_metroData:
  assumes "map_of (md_stations metroData) s = Some ns"
    and "map_of (md_stations metroData) e = Some ne"
    and "line ns = line ne"
    and "map_of (md_lines metroData) (line ns) = Some ln"
  shows "findRoute s e =
           Inr (Some \<lparr>path = slice_between ln (indexOf ln s) (indexOf ln e),
                     interchanges = 0, changeAt = None\<rparr>)"
  using findRouteIn_same [OF assms] by (simp add: findRoute_def)

lemma registeredE:
  assumes "registered md s"
  obtains n where "map_of (md_stations md) s = Some n" "homeLine md s = Some (line n)"
  using assms by (auto simp: registered_def homeLine_def)

text \<open>
  On the configured network \<open>findRoute\<close> returns \<open>null\<close> only from the guard on
  line 73: two registered names always get a route, and a name inherited from
  \<open>Object.prototype\<close> that passes the guard ends in a \<open>TypeError\<close>.
\<close>

lemma js_get_Own_iff: "(js_get obj k = Own v) = (map_of obj k = Some v)"
  by (simp add: js_get_def split: option.splits)

lemma findRoute_inherited_start:
  assumes "js_get (md_stations metroData) A = Inherited"
    and "\<not> falsy (js_get (md_stations metroData) B)"
  shows "findRoute A B = Inl TypeError"
proof (cases "js_get (md_stations metroData) B")
  case Undefined
  with assms(2) show ?thesis by simp
next
  case Inherited
  with assms(1) show ?thesis
    by (simp add: findRoute_def findRouteIn_def lines_get_def)
next
  case (Own nb)
  have "map fst (md_interchanges metroData) = [''Patna Junction'', ''Khemni Chak'']"
    by (simp add: metroData_def)
  with assms(1) Own show ?thesis
    by (simp add: findRoute_def findRouteIn_def fullPath_no_start_line)
qed

lemma findRoute_inherited_end:
  assumes "js_get (md_stations metroData) A = Own na"
    and "js_get (md_stations metroData) B = Inherited"
  shows "findRoute A B = Inl TypeError"
proof -
  from assms(1) have na: "map_of (md_stations metroData) A = Some na"
    by (simp add: js_get_Own_iff)
  from metroData_home_line [OF na] obtain la
    where la: "map_of (md_lines metroData) (line na) = Some la" by blast
  from metroData_line_interchanges [OF la]
  have "indexOf la ''Patna Junction'' \<noteq> - 1"
    by (simp add: indexOf_minus_one)
  then have "fullPath metroData A B (Some (line na)) None ''Patna Junction'' = Inl TypeError"
    using la by (simp add: fullPath_def lines_get_def Let_def)
  moreover have "map fst (md_interchanges metroData) = [''Patna Junction'', ''Khemni Chak'']"
    by (simp add: metroData_def)
  ultimately show ?thesis
    using assms by (simp add: findRoute_def findRouteIn_def)
qed

lemma findRoute_registered_route:
  assumes "map_of (md_stations metroData) A = Some na"
    and "map_of (md_stations metroData) B = Some nb"
  shows "\<exists>r. findRoute A B = Inr (Some r)"
proof -
  from metroData_home_line [OF assms(1)] obtain la
    where la: "map_of (md_lines metroData) (line na) = Some la" by blast
  from metroData_home_line [OF assms(2)] obtain lb
    where lb: "map_of (md_lines metroData) (line nb) = Some lb" by blast
  show ?thesis
  proof (cases "line na = line nb")
    case True
    from findRoute_same_metroData [OF assms True la] show ?thesis by simp
  next
    case False
    from findRoute_cross_metroData [OF assms False la lb] show ?thesis by simp
  qed
qed

lemma findRoute_null_iff_guard:
  "(findRoute A B = Inr None) =
     (falsy (js_get (md_stations metroData) A) \<or> falsy (js_get (md_stations metroData) B))"
proof
  assume null: "findRoute A B = Inr None"
  show "falsy (js_get (md_stations metroData) A) \<or> falsy (js_get (md_stations metroData) B)"
  proof (rule ccontr)
    assume "\<not> ?thesis"
    then have a: "\<not> falsy (js_get (md_stations metroData) A)"
      and b: "\<not> falsy (js_get (md_stations metroData) B)" by simp_all
    show False
    proof (cases "js_get (md_stations metroData) A")
      case Undefined
      with a show ?thesis by simp
    next
      case Inherited
      from findRoute_inherited_start [OF this b] null show ?thesis by simp
    next
      case (Own na)
      show ?thesis
      proof (cases "js_get (md_stations metroData) B")
        case Undefined
        with b show ?thesis by simp
      next
        case Inherited
        from findRoute_inherited_end [OF Own this] null show ?thesis by simp
      next
        case (Own nb)
        from \<open>js_get (md_stations metroData) A = Own na\<close> Own
        have "map_of (md_stations metroData) A = Some na"
          "map_of (md_stations metroData) B = Some nb"
          by (simp_all add: js_get_Own_iff)
        from findRoute_registered_route [OF this] null show ?thesis by auto
      qed
    qed
  qed
next
  assume "falsy (js_get (md_stations metroData) A) \<or> falsy (js_get (md_stations metroData) B)"
  then show "findRoute A B = Inr None"
    by (auto simp: findRoute_def findRouteIn_def Let_def)
qed

section \<open>The claims\<close>

subsection \<open>Concrete routes\<close>

text \<open>
  Claim C1. \<open>findRoute("Danapur Cantonment", "New ISBT")\<close> takes the cross-line branch
  (home lines 1 and 2). The loop body builds a full path of 17 stations through
  "Khemni Chak" and one of 21 stations through "Patna Junction"; the route returned is
  the one through "Khemni Chak", with \<open>interchanges = 1\<close> and
  \<open>changeAt = "Khemni Chak"\<close>.
\<close>

theorem danapur_to_new_isbt_via_khemni_chak:
  "homeLine metroData ''Danapur Cantonment'' = Some 1
   \<and> homeLine metroData ''New ISBT'' = Some 2
   \<and> (\<exists>p q. fullPath metroData ''Danapur Cantonment'' ''New ISBT'' (Some 1) (Some 2)
                ''Khemni Chak'' = Inr (Some p)
            \<and> fullPath metroData ''Danapur Cantonment'' ''New ISBT'' (Some 1) (Some 2)
                ''Patna Junction'' = Inr (Some q)
            \<and> length p = 17 \<and> length q = 21)
   \<and> findRoute ''Danapur Cantonment'' ''New ISBT'' =
       Inr (Some \<lparr>path =
          [''Danapur Cantonment'', ''Saguna More'', ''RPS More'',
           ''Patliputra'', ''Rukanpura'', ''Raja Bazar'', ''Patna Zoo'',
           ''Vikas Bhawan'', ''Vidyut Bhawan'', ''Patna Junction'',
           ''Mithapur'', ''Ramkrishna Nagar'', ''Jaganpur'',
           ''Khemni Chak'', ''Bhoothnath'', ''Zero Mile'', ''New ISBT''],
          interchanges = 1, changeAt = Some ''Khemni Chak''\<rparr>)"
  by (simp add: eval_defs homeLine_def)

text \<open>
  Claim C8. \<open>findRoute("Danapur Cantonment", "Khemni Chak")\<close> is a same-line route on
  line 1: its path is the whole station sequence of line 1, the 14 stations in their
  declared order, with \<open>interchanges = 0\<close> and no \<open>changeAt\<close>.
\<close>

theorem danapur_to_khemni_chak_line_one:
  "homeLine metroData ''Danapur Cantonment'' = Some 1
   \<and> homeLine metroData ''Khemni Chak'' = Some 1
   \<and> (\<exists>ln. lines_get metroData (Some 1) = Some ln \<and> length ln = 14
          \<and> ln = [''Danapur Cantonment'', ''Saguna More'', ''RPS More'', ''Patliputra'',
                  ''Rukanpura'', ''Raja Bazar'', ''Patna Zoo'', ''Vikas Bhawan'',
                  ''Vidyut Bhawan'', ''Patna Junction'', ''Mithapur'', ''Ramkrishna Nagar'',
                  ''Jaganpur'', ''Khemni Chak'']
          \<and> findRoute ''Danapur Cantonment'' ''Khemni Chak'' =
              Inr (Some \<lparr>path = ln, interchanges = 0, changeAt = None\<rparr>))"
  by (simp add: eval_defs homeLine_def)

subsection \<open>Unknown station names\<close>

text \<open>
  The guard on line 73, on any network: when at least one of the two names is not a key
  of the station registry no route is returned, and the result is \<open>null\<close> when at
  least one of them is neither a registry key nor a property name inherited from
  \<open>Object.prototype\<close>.
\<close>

lemma unknown_station_null:
  assumes "\<not> registered md A \<or> \<not> registered md B"
  shows "(\<forall>r. findRouteIn md A B \<noteq> Inr (Some r)) \<and>
         ((\<not> registered md A \<and> A \<notin> set object_prototype_keys)
            \<or> (\<not> registered md B \<and> B \<notin> set object_prototype_keys)
          \<longrightarrow> findRouteIn md A B = Inr None)"
proof (intro conjI allI impI)
  fix r
  show "findRouteIn md A B \<noteq> Inr (Some r)"
    using assms findRouteIn_route_registered [of md A B r] by blast
next
  assume "(\<not> registered md A \<and> A \<notin> set object_prototype_keys)
            \<or> (\<not> registered md B \<and> B \<notin> set object_prototype_keys)"
  then have "falsy (js_get (md_stations md) A) \<or> falsy (js_get (md_stations md) B)"
    by (auto simp: registered_def js_get_def)
  then show "findRouteIn md A B = Inr None"
    by (auto simp: findRouteIn_def Let_def)
qed

text \<open>
  Claim C2 says that every input with a name outside the station registry gets the
  invalid-station result, the \<open>null\<close> of line 74, as
  \<open>findRoute("Nonexistent Station", "New ISBT")\<close> does; on the configured network
  \<open>null\<close> comes from that guard alone, so it stands for an invalid station and for
  nothing else. At the unregistered name
  "toString" the lookup \<open>metroData.stations["toString"]\<close> finds the inherited
  function, the guard on line 73 lets it through, and
  \<open>findRoute("toString", "Patna Junction")\<close> raises \<open>TypeError\<close> on line 101
  instead.
\<close>

theorem inherited_name_not_invalid_station:
  "\<not> registered metroData ''toString''
   \<and> findRoute ''toString'' ''Patna Junction'' = Inl TypeError
   \<and> \<not> registered metroData ''Nonexistent Station''
   \<and> findRoute ''Nonexistent Station'' ''New ISBT'' = Inr None"
  by (simp add: eval_defs registered_def)

text \<open>
  Claim C10 says that on the configured network \<open>findRoute\<close> returns \<open>null\<close> exactly
  when one of the names is not in the station registry. At the unregistered name
  "constructor" the lookup \<open>metroData.stations["constructor"]\<close> finds the inherited
  \<open>Object\<close> function, the guard on line 73 lets it through, its \<open>.line\<close> is
  \<open>undefined\<close>, \<open>metroData.lines[undefined]\<close> is \<open>undefined\<close>, and
  \<open>line1.indexOf\<close> on line 101 raises \<open>TypeError\<close> instead of returning \<open>null\<close>.
\<close>

theorem inherited_name_raises:
  "\<not> registered metroData ''constructor''
     \<and> findRoute ''constructor'' ''New ISBT'' = Inl TypeError"
  by (simp add: eval_defs registered_def)

subsection \<open>Routes on one line\<close>

text \<open>
  Claim C3. For every registered station \<open>S\<close>, \<open>findRoute(S, S)\<close> returns the path
  \<open>[S]\<close> with \<open>interchanges = 0\<close>; the handler then reports 0 stations travelled,
  0 minutes and a price of 0.
\<close>

theorem same_station_single_path:
  assumes "registered metroData S"
  shows "findRoute S S = Inr (Some \<lparr>path = [S], interchanges = 0, changeAt = None\<rparr>)
         \<and> (\<exists>resp. api_route (Some S) (Some S) = Inr (RouteJson resp)
               \<and> numberOfStations resp = 0 \<and> numberOfInterchanges resp = 0
               \<and> estimatedTimeMinutes resp = 0 \<and> estimatedPriceINR resp = 0)"
proof -
  from assms obtain n where n: "map_of (md_stations metroData) S = Some n"
    by (rule registeredE)
  from metroData_home_line [OF n] obtain ln
    where ln: "map_of (md_lines metroData) (line n) = Some ln" "S \<in> set ln" by blast
  have "slice_between ln (indexOf ln S) (indexOf ln S) = [ln ! nat (indexOf ln S)]"
    using ln(2) by (intro slice_between_same indexOf_in)
  also have "ln ! nat (indexOf ln S) = S"
    using ln(2) by (rule indexOf_in)
  finally have r: "findRoute S S = Inr (Some \<lparr>path = [S], interchanges = 0, changeAt = None\<rparr>)"
    using findRoute_same_metroData [OF n n refl ln(1)] by simp
  from assms metroData_empty_name have "S \<noteq> []" by auto
  with r show ?thesis
    by (simp add: api_route_def Let_def)
qed

theorem same_station_single_path_witness:
  "registered metroData ''Patna Junction''
   \<and> findRoute ''Patna Junction'' ''Patna Junction'' =
       Inr (Some \<lparr>path = [''Patna Junction''], interchanges = 0, changeAt = None\<rparr>)"
proof -
  have h: "registered metroData ''Patna Junction''"
    by (simp add: registered_def metroData_def)
  from same_station_single_path [OF h] h show ?thesis by simp
qed

text \<open>
  Claim C4. For registered stations \<open>A\<close> and \<open>B\<close> with the same home line, both
  \<open>findRoute(A, B)\<close> and \<open>findRoute(B, A)\<close> return a route, the path of the one is the
  reverse of the path of the other, and the numbers of stations travelled
  (\<open>path.length - 1\<close>) agree.
\<close>

theorem same_line_reverse:
  assumes "registered metroData A" "registered metroData B"
    and "homeLine metroData A = homeLine metroData B"
  shows "\<exists>r1 r2. findRoute A B = Inr (Some r1) \<and> findRoute B A = Inr (Some r2)
           \<and> path r1 = rev (path r2)
           \<and> int (length (path r1)) - 1 = int (length (path r2)) - 1"
proof -
  from assms(1) obtain na where na: "map_of (md_stations metroData) A = Some na"
    "homeLine metroData A = Some (line na)" by (rule registeredE)
  from assms(2) obtain nb where nb: "map_of (md_stations metroData) B = Some nb"
    "homeLine metroData B = Some (line nb)" by (rule registeredE)
  from assms(3) na(2) nb(2) have eq: "line na = line nb" by simp
  from metroData_home_line [OF na(1)] obtain ln
    where ln: "map_of (md_lines metroData) (line na) = Some ln" by blast
  have ln': "map_of (md_lines metroData) (line nb) = Some ln"
    using ln eq by simp
  let ?p = "slice_between ln (indexOf ln A) (indexOf ln B)"
  let ?q = "slice_between ln (indexOf ln B) (indexOf ln A)"
  have ab: "findRoute A B = Inr (Some \<lparr>path = ?p, interchanges = 0, changeAt = None\<rparr>)"
    by (rule findRoute_same_metroData [OF na(1) nb(1) eq ln])
  have ba: "findRoute B A = Inr (Some \<lparr>path = ?q, interchanges = 0, changeAt = None\<rparr>)"
    by (rule findRoute_same_metroData [OF nb(1) na(1) eq [symmetric] ln'])
  have "?p = rev ?q" by (rule slice_between_rev)
  with ab ba show ?thesis by simp
qed

theorem same_line_reverse_witness:
  "registered metroData ''Akashvani'' \<and> registered metroData ''PMCH''
   \<and> homeLine metroData ''Akashvani'' = homeLine metroData ''PMCH''
   \<and> findRoute ''Akashvani'' ''PMCH'' =
       Inr (Some \<lparr>path = [''Akashvani'', ''Gandhi Maidan'', ''PMCH''],
                  interchanges = 0, changeAt = None\<rparr>)
   \<and> (\<exists>r2. findRoute ''PMCH'' ''Akashvani'' = Inr (Some r2)
          \<and> [''Akashvani'', ''Gandhi Maidan'', ''PMCH''] = rev (path r2))"
proof -
  have h1: "registered metroData ''Akashvani''" and h2: "registered metroData ''PMCH''"
    by (simp_all add: registered_def metroData_def)
  have h3: "homeLine metroData ''Akashvani'' = homeLine metroData ''PMCH''"
    by (simp add: homeLine_def metroData_def)
  have ab: "findRoute ''Akashvani'' ''PMCH'' =
       Inr (Some \<lparr>path = [''Akashvani'', ''Gandhi Maidan'', ''PMCH''],
                  interchanges = 0, changeAt = None\<rparr>)"
    by (simp add: eval_defs)
  from same_line_reverse [OF h1 h2 h3] ab h1 h2 h3 show ?thesis by auto
qed

subsection \<open>Routes across lines\<close>

text \<open>
  Claim C6. In the cross-line case (two registered stations whose home lines differ and
  are both present in \<open>lines\<close>), let \<open>cs\<close> be the interchange candidates that bridge
  the two lines, in the iteration order of the registry. With no candidate the result
  is \<open>null\<close>. Otherwise \<open>findRoute\<close> returns the two-leg route through some candidate
  \<open>cs ! k\<close> whose path is no longer than the path through any candidate and strictly
  shorter than the path through every earlier one: the fewest stations, and among equals
  the first met. (Networks are object literals without a repeated key.)
\<close>

theorem shortest_first_candidate:
  assumes "map_of (md_stations md) s = Some ns" "map_of (md_stations md) e = Some ne"
    and "line ns \<noteq> line ne"
    and "map_of (md_lines md) (line ns) = Some l1" "map_of (md_lines md) (line ne) = Some l2"
    and "cs = bridging l1 l2 (map fst (md_interchanges md))"
  shows "(cs = [] \<longrightarrow> findRouteIn md s e = Inr None) \<and>
         (cs \<noteq> [] \<longrightarrow>
            (\<exists>k<length cs.
               findRouteIn md s e =
                 Inr (Some \<lparr>path = twoLegPath l1 l2 s e (cs ! k), interchanges = 1,
                            changeAt = Some (cs ! k)\<rparr>)
               \<and> (\<forall>j<length cs. length (twoLegPath l1 l2 s e (cs ! k))
                                  \<le> length (twoLegPath l1 l2 s e (cs ! j)))
               \<and> (\<forall>j<k. length (twoLegPath l1 l2 s e (cs ! k))
                           < length (twoLegPath l1 l2 s e (cs ! j)))))"
proof (intro conjI impI)
  assume "cs = []"
  then show "findRouteIn md s e = Inr None"
    using findRouteIn_cross [OF assms(1-5)] assms(6) by simp
next
  assume ne: "cs \<noteq> []"
  let ?rs = "map (candidateRoute l1 l2 s e) cs"
  from ne have "?rs \<noteq> []" by simp
  from foldl_keep_shorter_first_min [OF this] obtain k where k: "k < length cs"
    "foldl keep_shorter None ?rs = Some (?rs ! k)"
    "\<forall>j<length cs. length (path (?rs ! k)) \<le> length (path (?rs ! j))"
    "\<forall>j<k. length (path (?rs ! k)) < length (path (?rs ! j))" by auto
  have "findRouteIn md s e = Inr (Some (candidateRoute l1 l2 s e (cs ! k)))"
    using findRouteIn_cross [OF assms(1-5)] assms(6) k(1,2) by simp
  moreover have "\<forall>j<length cs. length (twoLegPath l1 l2 s e (cs ! k))
                                  \<le> length (twoLegPath l1 l2 s e (cs ! j))"
    using k(1,3) by (simp add: candidateRoute_def)
  moreover have "\<forall>j<k. length (twoLegPath l1 l2 s e (cs ! k))
                           < length (twoLegPath l1 l2 s e (cs ! j))"
    using k(1,4) by (simp add: candidateRoute_def)
  ultimately show "\<exists>k<length cs.
               findRouteIn md s e =
                 Inr (Some \<lparr>path = twoLegPath l1 l2 s e (cs ! k), interchanges = 1,
                            changeAt = Some (cs ! k)\<rparr>)
               \<and> (\<forall>j<length cs. length (twoLegPath l1 l2 s e (cs ! k))
                                  \<le> length (twoLegPath l1 l2 s e (cs ! j)))
               \<and> (\<forall>j<k. length (twoLegPath l1 l2 s e (cs ! k))
                           < length (twoLegPath l1 l2 s e (cs ! j)))"
    using k(1) by (auto simp: candidateRoute_def)
qed

text \<open>
  From "Ramkrishna Nagar" to "Patna University" both candidates give a path of 7
  stations, and the route kept is the one through "Patna Junction", the first key of
  the registry.
\<close>

theorem shortest_first_candidate_witness:
  "\<exists>l1 l2.
     map_of (md_stations metroData) ''Ramkrishna Nagar'' = Some \<lparr>line = 1, interchange = False\<rparr>
     \<and> map_of (md_stations metroData) ''Patna University'' = Some \<lparr>line = 2, interchange = False\<rparr>
     \<and> map_of (md_lines metroData) 1 = Some l1 \<and> map_of (md_lines metroData) 2 = Some l2
     \<and> bridging l1 l2 (map fst (md_interchanges metroData)) = [''Patna Junction'', ''Khemni Chak'']
     \<and> length (twoLegPath l1 l2 ''Ramkrishna Nagar'' ''Patna University'' ''Patna Junction'') = 7
     \<and> length (twoLegPath l1 l2 ''Ramkrishna Nagar'' ''Patna University'' ''Khemni Chak'') = 7
     \<and> findRouteIn metroData ''Ramkrishna Nagar'' ''Patna University'' =
         Inr (Some \<lparr>path = [''Ramkrishna Nagar'', ''Mithapur'', ''Patna Junction'',
                            ''Akashvani'', ''Gandhi Maidan'', ''PMCH'', ''Patna University''],
                    interchanges = 1, changeAt = Some ''Patna Junction''\<rparr>)"
proof -
  define ns where "ns = \<lparr>line = 1, interchange = False\<rparr>"
  define ne where "ne = \<lparr>line = 2, interchange = False\<rparr>"
  define l1 where "l1 = the (map_of (md_lines metroData) 1)"
  define l2 where "l2 = the (map_of (md_lines metroData) 2)"
  define cs where "cs = bridging l1 l2 (map fst (md_interchanges metroData))"
  have h1: "map_of (md_stations metroData) ''Ramkrishna Nagar'' = Some ns"
    and h2: "map_of (md_stations metroData) ''Patna University'' = Some ne"
    by (simp_all add: metroData_def ns_def ne_def)
  have h3: "line ns \<noteq> line ne"
    by (simp add: ns_def ne_def)
  have h4: "map_of (md_lines metroData) (line ns) = Some l1"
    and h5: "map_of (md_lines metroData) (line ne) = Some l2"
    by (simp_all add: metroData_def ns_def ne_def l1_def l2_def)
  have cs: "cs = [''Patna Junction'', ''Khemni Chak'']"
    unfolding cs_def by (rule metroData_bridging [OF h4 h5])
  have pj: "length (twoLegPath l1 l2 ''Ramkrishna Nagar'' ''Patna University'' ''Patna Junction'') = 7"
    and kc: "length (twoLegPath l1 l2 ''Ramkrishna Nagar'' ''Patna University'' ''Khemni Chak'') = 7"
    by (simp_all add: twoLegPath_def l1_def l2_def eval_defs)
  have r: "findRouteIn metroData ''Ramkrishna Nagar'' ''Patna University'' =
         Inr (Some \<lparr>path = [''Ramkrishna Nagar'', ''Mithapur'', ''Patna Junction'',
                            ''Akashvani'', ''Gandhi Maidan'', ''PMCH'', ''Patna University''],
                    interchanges = 1, changeAt = Some ''Patna Junction''\<rparr>)"
    by (simp add: eval_defs)
  from shortest_first_candidate [OF h1 h2 h3 h4 h5 cs_def] h1 h2 h4 h5 cs pj kc r
  show ?thesis
    by (auto simp: ns_def ne_def cs_def)
qed

text \<open>
  Claim C9. For registered stations with different home lines the route returned has
  \<open>interchanges = 1\<close> and a \<open>changeAt\<close> station, also when an endpoint is itself an
  interchange station lying on the other endpoint's line: no route without a change is
  returned for such a pair.
\<close>

theorem cross_line_one_interchange:
  assumes "registered metroData A" "registered metroData B"
    and "homeLine metroData A \<noteq> homeLine metroData B"
  shows "\<exists>p ic. findRoute A B = Inr (Some \<lparr>path = p, interchanges = 1, changeAt = Some ic\<rparr>)"
proof -
  from assms(1) obtain na where na: "map_of (md_stations metroData) A = Some na"
    "homeLine metroData A = Some (line na)" by (rule registeredE)
  from assms(2) obtain nb where nb: "map_of (md_stations metroData) B = Some nb"
    "homeLine metroData B = Some (line nb)" by (rule registeredE)
  from assms(3) na(2) nb(2) have neq: "line na \<noteq> line nb" by simp
  from metroData_home_line [OF na(1)] obtain la
    where la: "map_of (md_lines metroData) (line na) = Some la" by blast
  from metroData_home_line [OF nb(1)] obtain lb
    where lb: "map_of (md_lines metroData) (line nb) = Some lb" by blast
  show ?thesis
    unfolding findRoute_cross_metroData [OF na(1) nb(1) neq la lb]
    by (simp add: candidateRoute_def)
qed

text \<open>
  "Khemni Chak" has home line 1 and lies on line 2, the home line of "New ISBT"; the
  route between them still reports one interchange, at "Khemni Chak".
\<close>

theorem cross_line_one_interchange_witness:
  "registered metroData ''Khemni Chak'' \<and> registered metroData ''New ISBT''
   \<and> homeLine metroData ''Khemni Chak'' \<noteq> homeLine metroData ''New ISBT''
   \<and> (\<exists>ln. lines_get metroData (homeLine metroData ''New ISBT'') = Some ln
          \<and> ''Khemni Chak'' \<in> set ln)
   \<and> findRoute ''Khemni Chak'' ''New ISBT'' =
       Inr (Some \<lparr>path = [''Khemni Chak'', ''Bhoothnath'', ''Zero Mile'', ''New ISBT''],
                  interchanges = 1, changeAt = Some ''Khemni Chak''\<rparr>)"
proof -
  have h1: "registered metroData ''Khemni Chak''" and h2: "registered metroData ''New ISBT''"
    by (simp_all add: registered_def metroData_def)
  have h3: "homeLine metroData ''Khemni Chak'' \<noteq> homeLine metroData ''New ISBT''"
    by (simp add: homeLine_def metroData_def)
  have on2: "\<exists>ln. lines_get metroData (homeLine metroData ''New ISBT'') = Some ln
          \<and> ''Khemni Chak'' \<in> set ln"
    by (simp add: homeLine_def lines_get_def metroData_def)
  have r: "findRoute ''Khemni Chak'' ''New ISBT'' =
       Inr (Some \<lparr>path = [''Khemni Chak'', ''Bhoothnath'', ''Zero Mile'', ''New ISBT''],
                  interchanges = 1, changeAt = Some ''Khemni Chak''\<rparr>)"
    by (simp add: eval_defs)
  from cross_line_one_interchange [OF h1 h2 h3] h1 h2 h3 on2 r show ?thesis by simp
qed

text \<open>
  Claim C5. For every pair of registered stations \<open>A\<close>, \<open>B\<close> (each such pair is
  reachable), \<open>findRoute(A, B)\<close> and \<open>findRoute(B, A)\<close> both return a route, with equal
  interchange counts and paths of equal length.
\<close>

theorem symmetric_counts:
  assumes "registered metroData A" "registered metroData B"
  shows "\<exists>r1 r2. findRoute A B = Inr (Some r1) \<and> findRoute B A = Inr (Some r2)
           \<and> interchanges r1 = interchanges r2
           \<and> length (path r1) = length (path r2)"
proof -
  from assms(1) obtain na where na: "map_of (md_stations metroData) A = Some na"
    by (rule registeredE)
  from assms(2) obtain nb where nb: "map_of (md_stations metroData) B = Some nb"
    by (rule registeredE)
  from metroData_home_line [OF na] obtain la
    where la: "map_of (md_lines metroData) (line na) = Some la" "A \<in> set la" by blast
  from metroData_home_line [OF nb] obtain lb
    where lb: "map_of (md_lines metroData) (line nb) = Some lb" "B \<in> set lb" by blast
  show ?thesis
  proof (cases "line na = line nb")
    case True
    with la(1) lb(1) have lb': "map_of (md_lines metroData) (line nb) = Some la" by simp
    have "length (slice_between la (indexOf la A) (indexOf la B))
            = length (slice_between la (indexOf la B) (indexOf la A))"
      using slice_between_rev [of la "indexOf la A" "indexOf la B"] by simp
    then show ?thesis
      using findRoute_same_metroData [OF na nb True la(1)]
        findRoute_same_metroData [OF nb na True [symmetric] lb']
      by simp
  next
    case False
    then have False': "line nb \<noteq> line na" by simp
    note ia = metroData_line_interchanges [OF la(1)]
    note ib = metroData_line_interchanges [OF lb(1)]
    have pj: "length (twoLegPath la lb A B ''Patna Junction'')
                = length (twoLegPath lb la B A ''Patna Junction'')"
      using la(2) lb(2) ia ib by (intro length_twoLegPath_sym) simp_all
    have kc: "length (twoLegPath la lb A B ''Khemni Chak'')
                = length (twoLegPath lb la B A ''Khemni Chak'')"
      using la(2) lb(2) ia ib by (intro length_twoLegPath_sym) simp_all
    show ?thesis
      unfolding findRoute_cross_metroData [OF na nb False la(1) lb(1)]
        findRoute_cross_metroData [OF nb na False' lb(1) la(1)]
      using pj kc by (simp add: candidateRoute_def)
  qed
qed

theorem symmetric_counts_witness:
  "registered metroData ''Danapur Cantonment'' \<and> registered metroData ''New ISBT''
   \<and> (\<exists>r1 r2. findRoute ''Danapur Cantonment'' ''New ISBT'' = Inr (Some r1)
          \<and> findRoute ''New ISBT'' ''Danapur Cantonment'' = Inr (Some r2)
          \<and> interchanges r1 = interchanges r2 \<and> length (path r1) = length (path r2))"
proof -
  have h1: "registered metroData ''Danapur Cantonment''"
    and h2: "registered metroData ''New ISBT''"
    by (simp_all add: registered_def metroData_def)
  from symmetric_counts [OF h1 h2] h1 h2 show ?thesis by simp
qed

subsection \<open>Estimates\<close>

text \<open>
  Claim C7. For every route \<open>findRoute\<close> returns, with a path of length \<open>p\<close> and
  interchange count \<open>k\<close>, the handler answers with \<open>numberOfStations = p - 1\<close>,
  \<open>estimatedTimeMinutes = (p - 1) * 2 + k * 5\<close> and
  \<open>estimatedPriceINR = (p - 1) * 5\<close>, the factors being \<open>TIME_PER_STATION_MINS\<close>,
  \<open>INTERCHANGE_TIME_MINS\<close> and \<open>COST_PER_STATION_INR\<close>.
\<close>

theorem estimate_formula:
  assumes "findRoute f t = Inr (Some rt)"
  shows "\<exists>resp. api_route (Some f) (Some t) = Inr (RouteJson resp)
           \<and> numberOfStations resp = int (length (path rt)) - 1
           \<and> numberOfInterchanges resp = interchanges rt
           \<and> estimatedTimeMinutes resp =
               numberOfStations resp * TIME_PER_STATION_MINS
                 + interchanges rt * INTERCHANGE_TIME_MINS
           \<and> estimatedPriceINR resp = numberOfStations resp * COST_PER_STATION_INR
           \<and> TIME_PER_STATION_MINS = 2 \<and> INTERCHANGE_TIME_MINS = 5
           \<and> COST_PER_STATION_INR = 5"
proof -
  from assms have "registered metroData f \<and> registered metroData t"
    unfolding findRoute_def by (rule findRouteIn_route_registered)
  with metroData_empty_name have "f \<noteq> []" "t \<noteq> []" by auto
  with assms show ?thesis
    by (simp add: api_route_def Let_def TIME_PER_STATION_MINS_def
        INTERCHANGE_TIME_MINS_def COST_PER_STATION_INR_def)
qed

theorem estimate_formula_witness:
  "(\<exists>rt. findRoute ''Danapur Cantonment'' ''New ISBT'' = Inr (Some rt)
       \<and> length (path rt) = 17 \<and> interchanges rt = 1)
   \<and> (\<exists>resp. api_route (Some ''Danapur Cantonment'') (Some ''New ISBT'') = Inr (RouteJson resp)
       \<and> numberOfStations resp = 16 \<and> numberOfInterchanges resp = 1
       \<and> estimatedTimeMinutes resp = 37 \<and> estimatedPriceINR resp = 80)"
proof -
  let ?rt = "\<lparr>path =
          [''Danapur Cantonment'', ''Saguna More'', ''RPS More'',
           ''Patliputra'', ''Rukanpura'', ''Raja Bazar'', ''Patna Zoo'',
           ''Vikas Bhawan'', ''Vidyut Bhawan'', ''Patna Junction'',
           ''Mithapur'', ''Ramkrishna Nagar'', ''Jaganpur'',
           ''Khemni Chak'', ''Bhoothnath'', ''Zero Mile'', ''New ISBT''],
          interchanges = 1, changeAt = Some ''Khemni Chak''\<rparr>"
  have h: "findRoute ''Danapur Cantonment'' ''New ISBT'' = Inr (Some ?rt)"
    by (simp add: eval_defs)
  from estimate_formula [OF h] obtain resp
    where "api_route (Some ''Danapur Cantonment'') (Some ''New ISBT'') = Inr (RouteJson resp)"
      "numberOfStations resp = 16" "numberOfInterchanges resp = 1"
      "estimatedTimeMinutes resp = 37" "estimatedPriceINR resp = 80"
    by auto
  with h show ?thesis by auto
qed

end
